theory Spec2Isabelle
  imports Main "HOL-Library.Multiset"
begin

section \<open>Data model (lib/schema.ts, types/email.ts)\<close>

text \<open>
  \<open>EmailDirection\<close> is a string enum: its members are the strings \<open>'incoming'\<close> and
  \<open>'outgoing'\<close>. The \<open>direction\<close> column is text, and a row holds whatever string it
  was created with.
\<close>

type_synonym EmailDirection = string

abbreviation INCOMING :: EmailDirection where
  "INCOMING \<equiv> ''incoming''"

abbreviation OUTGOING :: EmailDirection where
  "OUTGOING \<equiv> ''outgoing''"

text \<open>
  A row of the \<open>emails\<close> table. The columns \<open>id\<close>, \<open>from\<close> and \<open>to\<close> are named
  \<open>emailId\<close>, \<open>from_addr\<close> and \<open>to_addr\<close> here. \<open>content\<close> is the only nullable
  column. Timestamps (\<open>mode: 'timestamp'\<close>) are integers.
\<close>

record Email =
  emailId :: int
  threadId :: string
  subject :: string
  from_addr :: string
  to_addr :: string
  content :: "string option"
  isRead :: bool
  isImportant :: bool
  isDeleted :: bool
  direction :: EmailDirection
  createdAt :: int
  updatedAt :: int

text \<open>The single row (id = 1) of the \<open>email_stats\<close> table; it has no column for the
  deleted count.\<close>

record EmailStatsRow =
  inboxEmailCount :: nat
  unreadEmailCount :: nat
  importantEmailCount :: nat
  sentEmailCount :: nat
  statsUpdatedAt :: int

record EmailStats =
  total :: nat
  unread :: nat
  important :: nat
  deleted :: nat
  sent :: nat

text \<open>
  The data store: the rows of \<open>emails\<close> in rowid order, the stats row with id
  \<open>STATS_ROW_ID\<close> when it exists, and the next value of the autoincrement key.
\<close>

record Db =
  emails :: "Email list"
  emailStats :: "EmailStatsRow option"
  nextId :: int

text \<open>A failed request: the HTTP status and the error message.\<close>

type_synonym error = "nat \<times> string"

section \<open>JavaScript and SQL primitives used by the handlers\<close>

text \<open>JavaScript truthiness of an optional string (\<open>null\<close>, \<open>undefined\<close> and
  \<open>''\<close> are falsy) and of an optional number (\<open>0\<close> is falsy).\<close>

definition truthy_str :: "string option \<Rightarrow> bool" where
  "truthy_str s = (case s of None \<Rightarrow> False | Some v \<Rightarrow> v \<noteq> [])"

definition truthy_num :: "int option \<Rightarrow> bool" where
  "truthy_num n = (case n of None \<Rightarrow> False | Some v \<Rightarrow> v \<noteq> 0)"

text \<open>\<open>x || undefined\<close> on an optional string.\<close>

definition or_undefined :: "string option \<Rightarrow> string option" where
  "or_undefined s = (if truthy_str s then s else None)"

text \<open>The white space and line terminators that \<open>String.prototype.trim\<close> strips,
  among the characters a \<open>char\<close> can hold: TAB, LF, VT, FF, CR, SPACE, NBSP.\<close>

definition is_ws :: "char \<Rightarrow> bool" where
  "is_ws c = (of_char c \<in> {9::nat, 10, 11, 12, 13, 32, 160})"

definition trim :: "string \<Rightarrow> string" where
  "trim s = rev (dropWhile is_ws (rev (dropWhile is_ws s)))"

text \<open>
  A value of a parsed JSON body, or \<open>undefined\<close> for a field that the body lacks.
  \<open>JArray\<close> and \<open>JObject\<close> stand for any array and any object: the handlers never
  read their contents. Numbers with a fraction are left out; a handler treats them as it
  treats an integer other than 0.
\<close>

datatype json = JUndefined | JNull | JBool bool | JNumber int | JString string | JArray | JObject

text \<open>JavaScript truthiness of such a value.\<close>

definition truthy :: "json \<Rightarrow> bool" where
  "truthy v =
     (case v of
        JUndefined \<Rightarrow> False
      | JNull \<Rightarrow> False
      | JBool b \<Rightarrow> b
      | JNumber n \<Rightarrow> n \<noteq> 0
      | JString s \<Rightarrow> s \<noteq> []
      | JArray \<Rightarrow> True
      | JObject \<Rightarrow> True)"

text \<open>How an expression ends: with a value, or by throwing.\<close>

datatype 'a completion = Throw | Return 'a

text \<open>
  \<open>x?.trim()\<close>: \<open>undefined\<close> when \<open>x\<close> is \<open>undefined\<close> or \<open>null\<close>, the trimmed string
  when \<open>x\<close> is a string; on any other value \<open>x.trim\<close> is not a function and the
  call throws a TypeError.
\<close>

definition optional_trim :: "json \<Rightarrow> string option completion" where
  "optional_trim v =
     (case v of
        JUndefined \<Rightarrow> Return None
      | JNull \<Rightarrow> Return None
      | JString s \<Rightarrow> Return (Some (trim s))
      | JBool b \<Rightarrow> Throw
      | JNumber n \<Rightarrow> Throw
      | JArray \<Rightarrow> Throw
      | JObject \<Rightarrow> Throw)"

definition is_digit :: "char \<Rightarrow> bool" where
  "is_digit c = (48 \<le> (of_char c :: nat) \<and> (of_char c :: nat) \<le> 57)"

definition digit_val :: "char \<Rightarrow> int" where
  "digit_val c = int (of_char c) - 48"

definition digits_val :: "string \<Rightarrow> int" where
  "digits_val ds = foldl (\<lambda>acc c. 10 * acc + digit_val c) 0 ds"

text \<open>
  \<open>parseInt(s, 10)\<close>: leading white space is skipped, one sign is read, then the
  longest run of decimal digits; \<open>None\<close> is NaN. Results are exact integers (the
  rounding of JavaScript numbers above \<open>2^53\<close> is not modelled).
\<close>

definition parseInt :: "string \<Rightarrow> int option" where
  "parseInt s =
     (let t = dropWhile is_ws s;
          (neg, u) = (case t of
                        [] \<Rightarrow> (False, [])
                      | c # cs \<Rightarrow> if c = CHR ''-'' then (True, cs)
                                 else if c = CHR ''+'' then (False, cs)
                                 else (False, t));
          ds = takeWhile is_digit u
      in if ds = [] then None
         else Some (if neg then - digits_val ds else digits_val ds))"

text \<open>SQLite's \<open>LIKE\<close>: \<open>%\<close> matches any run of characters, \<open>_\<close> any one character,
  and every other pattern character matches itself up to ASCII case.\<close>

definition lower_ascii :: "char \<Rightarrow> char" where
  "lower_ascii c =
     (if 65 \<le> (of_char c :: nat) \<and> (of_char c :: nat) \<le> 90
      then char_of (of_char c + (32 :: nat)) else c)"

fun like :: "string \<Rightarrow> string \<Rightarrow> bool" where
  "like [] [] = True"
| "like [] (c # cs) = False"
| "like (p # ps) [] = (p = CHR ''%'' \<and> like ps [])"
| "like (p # ps) (c # cs) =
     (if p = CHR ''%'' then like ps (c # cs) \<or> like (p # ps) cs
      else (p = CHR ''_'' \<or> lower_ascii p = lower_ascii c) \<and> like ps cs)"

text \<open>\<open>LIKE\<close> on a nullable column: NULL is not a match.\<close>

definition like_opt :: "string option \<Rightarrow> string \<Rightarrow> bool" where
  "like_opt v pat = (case v of None \<Rightarrow> False | Some s \<Rightarrow> like pat s)"

text \<open>
  \<open>ORDER BY created_at DESC\<close> and \<open>ASC\<close>. SQL leaves the order of rows with equal keys
  open; the model keeps them in the order of its input (a stable sort).
\<close>

definition orderBy_desc_createdAt :: "Email list \<Rightarrow> Email list" where
  "orderBy_desc_createdAt rows = sort_key (\<lambda>e. - createdAt e) rows"

definition orderBy_asc_createdAt :: "Email list \<Rightarrow> Email list" where
  "orderBy_asc_createdAt rows = sort_key createdAt rows"

text \<open>\<open>UPDATE emails SET ... WHERE cond RETURNING *\<close>: the new table and the updated rows.\<close>

definition update_where :: "(Email \<Rightarrow> bool) \<Rightarrow> (Email \<Rightarrow> Email) \<Rightarrow> Email list \<Rightarrow> Email list" where
  "update_where cond f rows = map (\<lambda>e. if cond e then f e else e) rows"

definition returning :: "(Email \<Rightarrow> bool) \<Rightarrow> (Email \<Rightarrow> Email) \<Rightarrow> Email list \<Rightarrow> Email list" where
  "returning cond f rows = map f (filter cond rows)"

section \<open>Query engine (lib/emailQueries.ts)\<close>

record EmailQueryParams =
  filter_name :: "string option"
  query :: "string option"
  threaded :: bool

text \<open>The \<open>switch\<close> on the filter name; any other name, and no name, is the inbox.\<close>

definition getFilterCondition :: "string option \<Rightarrow> Email \<Rightarrow> bool" where
  "getFilterCondition f e =
     (if f = Some ''trash'' then isDeleted e
      else if f = Some ''important'' then isImportant e \<and> \<not> isDeleted e
      else if f = Some ''sent'' then direction e = OUTGOING \<and> \<not> isDeleted e
      else if f = Some ''unread'' then \<not> isRead e \<and> \<not> isDeleted e
      else direction e = INCOMING \<and> \<not> isDeleted e)"

definition getSearchConditions :: "string \<Rightarrow> Email \<Rightarrow> bool" where
  "getSearchConditions q e =
     (let searchTerm = ''%'' @ q @ ''%''
      in like searchTerm (subject e) \<or> like searchTerm (to_addr e)
         \<or> like searchTerm (from_addr e) \<or> like_opt (content e) searchTerm)"

text \<open>\<open>and(...conditions)\<close>.\<close>

definition and_all :: "(Email \<Rightarrow> bool) list \<Rightarrow> Email \<Rightarrow> bool" where
  "and_all conds e = list_all (\<lambda>c. c e) conds"

text \<open>The subquery \<open>latest\<close>: one row \<open>(thread_id, MAX(created_at))\<close> for each thread
  that has a row matching the conditions.\<close>

definition latest :: "(Email \<Rightarrow> bool) list \<Rightarrow> Email list \<Rightarrow> (string \<times> int) list" where
  "latest conds rows =
     (let matching = filter (and_all conds) rows
      in map (\<lambda>t. (t, Max (set (map createdAt (filter (\<lambda>e. threadId e = t) matching)))))
             (remdups (map threadId matching)))"

text \<open>The inner join of \<open>emails\<close> with \<open>latest\<close> on thread id and creation time,
  ordered by creation time, newest first.\<close>

definition fetchThreadedEmails :: "(Email \<Rightarrow> bool) list \<Rightarrow> Email list \<Rightarrow> Email list" where
  "fetchThreadedEmails conds rows =
     orderBy_desc_createdAt
       (concat (map (\<lambda>e. map (\<lambda>l. e)
                      (filter (\<lambda>l. threadId e = fst l \<and> createdAt e = snd l) (latest conds rows)))
                    rows))"

definition conditions :: "EmailQueryParams \<Rightarrow> (Email \<Rightarrow> bool) list" where
  "conditions params =
     getFilterCondition (filter_name params)
     # (case query params of
          None \<Rightarrow> []
        | Some q \<Rightarrow> if q \<noteq> [] \<and> trim q \<noteq> [] then [getSearchConditions (trim q)] else [])"

definition fetchEmails :: "EmailQueryParams \<Rightarrow> Email list \<Rightarrow> Email list" where
  "fetchEmails params rows =
     (if threaded params then fetchThreadedEmails (conditions params) rows
      else orderBy_desc_createdAt (filter (and_all (conditions params)) rows))"

section \<open>Stats maintainer (lib/statsQueries.ts)\<close>

text \<open>\<open>SELECT COUNT(*) FROM emails WHERE cond\<close>.\<close>

definition count_where :: "(Email \<Rightarrow> bool) \<Rightarrow> Email list \<Rightarrow> nat" where
  "count_where cond rows = length (filter cond rows)"

text \<open>
  Five counts over the email table, then the upsert of the stats row. The row stores
  four of them; the deleted count is only returned. \<open>now\<close> is \<open>new Date()\<close>.
\<close>

definition recalculateStats :: "int \<Rightarrow> Db \<Rightarrow> Db \<times> EmailStats" where
  "recalculateStats now db =
     (let inboxResult = count_where (\<lambda>e. direction e = INCOMING \<and> \<not> isDeleted e) (emails db);
          unreadResult = count_where
            (\<lambda>e. direction e = INCOMING \<and> \<not> isRead e \<and> \<not> isDeleted e) (emails db);
          importantResult = count_where (\<lambda>e. isImportant e \<and> \<not> isDeleted e) (emails db);
          deletedResult = count_where (\<lambda>e. isDeleted e) (emails db);
          sentResult = count_where (\<lambda>e. direction e = OUTGOING \<and> \<not> isDeleted e) (emails db);
          stats = \<lparr>total = inboxResult, unread = unreadResult, important = importantResult,
                   deleted = deletedResult, sent = sentResult\<rparr>
      in (db\<lparr>emailStats := Some \<lparr>inboxEmailCount = total stats,
                                  unreadEmailCount = unread stats,
                                  importantEmailCount = important stats,
                                  sentEmailCount = sent stats,
                                  statsUpdatedAt = now\<rparr>\<rparr>,
          stats))"

definition getStats :: "int \<Rightarrow> Db \<Rightarrow> Db \<times> EmailStats" where
  "getStats now db =
     (case emailStats db of
        None \<Rightarrow> recalculateStats now db
      | Some row \<Rightarrow>
          (db, \<lparr>total = inboxEmailCount row, unread = unreadEmailCount row,
                important = importantEmailCount row, deleted = 0,
                sent = sentEmailCount row\<rparr>))"

definition invalidateStats :: "int \<Rightarrow> Db \<Rightarrow> Db" where
  "invalidateStats now db = fst (recalculateStats now db)"

section \<open>Thread route (app/api/emails/thread/[threadId]/route.ts)\<close>

definition getThreadFilterCondition :: "string \<Rightarrow> string option \<Rightarrow> Email \<Rightarrow> bool" where
  "getThreadFilterCondition tid f e =
     (if f = Some ''trash'' then threadId e = tid \<and> isDeleted e
      else if f = Some ''important'' then threadId e = tid \<and> isImportant e \<and> \<not> isDeleted e
      else threadId e = tid \<and> \<not> isDeleted e)"

text \<open>\<open>GET /api/emails/thread/[threadId]?filter=\<close>: the emails and their count.\<close>

definition thread_GET :: "string \<Rightarrow> string option \<Rightarrow> Db \<Rightarrow> error + (Email list \<times> nat)" where
  "thread_GET tid f db =
     (if tid = [] then Inl (400, ''Thread ID is required'')
      else let threadEmails =
                 orderBy_asc_createdAt
                   (filter (getThreadFilterCondition tid (or_undefined f)) (emails db))
           in Inr (threadEmails, length threadEmails))"

section \<open>Email routes (app/api/emails/route.ts)\<close>

text \<open>\<open>GET /api/emails?filter=&query=&threaded=\<close>.\<close>

definition GET :: "string option \<Rightarrow> string option \<Rightarrow> string option \<Rightarrow> Db \<Rightarrow> Email list \<times> nat" where
  "GET f q t db =
     (let emailList = fetchEmails \<lparr>filter_name = or_undefined f, query = or_undefined q,
                                   threaded = (t = Some ''true'')\<rparr> (emails db)
      in (emailList, length emailList))"

text \<open>
  The body of a create request as the handler gets it from \<open>request.json()\<close>: an object
  whose fields are any JSON values; a field that the body lacks is \<open>JUndefined\<close>. A
  body that is not JSON, or is \<open>null\<close>, has no fields to read: the handler throws on it
  at once and answers 500.
\<close>

record CreateEmailRequest =
  c_subject :: json
  c_to :: json
  c_cc :: json
  c_bcc :: json
  c_content :: json
  c_threadId :: json
  c_direction :: json

text \<open>
  The text that the data store writes into a text column for a value of the body: a
  string is written as it is. What the store does with a value that is not a string is
  not part of the handler; it is the parameter \<open>bind_text\<close>, which is \<open>None\<close> when the
  store refuses the value and the insert throws.
\<close>

definition stored_text :: "(json \<Rightarrow> string option) \<Rightarrow> json \<Rightarrow> string option" where
  "stored_text bind_text v = (case v of JString s \<Rightarrow> Some s | _ \<Rightarrow> bind_text v)"

text \<open>
  \<open>POST /api/emails\<close>. \<open>now\<close> is \<open>new Date()\<close> and \<open>fresh\<close> is what
  \<open>generateThreadId()\<close> returns. The table has no cc or bcc column, so these values
  are not stored, but \<open>cc?.trim()\<close> and \<open>bcc?.trim()\<close> are evaluated. Whatever is thrown
  inside the \<open>try\<close> block is caught and answered with status 500; all of it is thrown
  before the row is written.
\<close>

definition POST ::
  "int \<Rightarrow> string \<Rightarrow> (json \<Rightarrow> string option) \<Rightarrow> CreateEmailRequest \<Rightarrow> Db \<Rightarrow> Db \<times> (error + Email)"
where
  "POST now fresh bind_text req db =
     (case optional_trim (c_subject req) of
        Throw \<Rightarrow> (db, Inl (500, ''Failed to create email''))
      | Return subject' \<Rightarrow>
     if \<not> truthy_str subject' then (db, Inl (400, ''Subject is required''))
     else
     (case optional_trim (c_to req) of
        Throw \<Rightarrow> (db, Inl (500, ''Failed to create email''))
      | Return to' \<Rightarrow>
     if \<not> truthy_str to' then (db, Inl (400, ''Recipient (to) is required''))
     else
     (case optional_trim (c_cc req) of
        Throw \<Rightarrow> (db, Inl (500, ''Failed to create email''))
      | Return cc' \<Rightarrow>
     (case optional_trim (c_bcc req) of
        Throw \<Rightarrow> (db, Inl (500, ''Failed to create email''))
      | Return bcc' \<Rightarrow>
     (case optional_trim (c_content req) of
        Throw \<Rightarrow> (db, Inl (500, ''Failed to create email''))
      | Return content' \<Rightarrow>
     (case stored_text bind_text
             (if truthy (c_threadId req) then c_threadId req else JString fresh) of
        None \<Rightarrow> (db, Inl (500, ''Failed to create email''))
      | Some threadId' \<Rightarrow>
     (case stored_text bind_text
             (if truthy (c_direction req) then c_direction req else JString OUTGOING) of
        None \<Rightarrow> (db, Inl (500, ''Failed to create email''))
      | Some direction' \<Rightarrow>
        let email = \<lparr>emailId = nextId db,
                     threadId = threadId',
                     subject = the subject',
                     from_addr = ''me@company.com'',
                     to_addr = the to',
                     content = Some (if truthy_str content' then the content' else []),
                     isRead = True,
                     isImportant = False,
                     isDeleted = False,
                     direction = direction',
                     createdAt = now,
                     updatedAt = now\<rparr>;
            db' = db\<lparr>emails := emails db @ [email], nextId := nextId db + 1\<rparr>
        in (invalidateStats now db', Inr email))))))))"

text \<open>The body of an update request; a flag that the body lacks is \<open>None\<close>.\<close>

record UpdateRequest =
  p_id :: "int option"
  p_threadId :: "string option"
  p_isRead :: "bool option"
  p_isImportant :: "bool option"
  p_isDeleted :: "bool option"

text \<open>The object \<open>updateData\<close>, as the change it makes to a row.\<close>

definition updateData :: "int \<Rightarrow> UpdateRequest \<Rightarrow> Email \<Rightarrow> Email" where
  "updateData now req e =
     e\<lparr>updatedAt := now,
       isRead := (case p_isRead req of None \<Rightarrow> isRead e | Some v \<Rightarrow> v),
       isImportant := (case p_isImportant req of None \<Rightarrow> isImportant e | Some v \<Rightarrow> v),
       isDeleted := (case p_isDeleted req of None \<Rightarrow> isDeleted e | Some v \<Rightarrow> v)\<rparr>"

definition patch_condition :: "UpdateRequest \<Rightarrow> Email \<Rightarrow> bool" where
  "patch_condition req e =
     (if truthy_str (p_threadId req) then threadId e = the (p_threadId req)
      else Some (emailId e) = p_id req)"

text \<open>\<open>PATCH /api/emails\<close>: the first updated email, all of them, and the stats.\<close>

definition PATCH :: "int \<Rightarrow> UpdateRequest \<Rightarrow> Db \<Rightarrow> Db \<times> (error + (Email \<times> Email list \<times> EmailStats))" where
  "PATCH now req db =
     (if \<not> truthy_num (p_id req) \<and> \<not> truthy_str (p_threadId req)
        then (db, Inl (400, ''Email ID or Thread ID is required''))
      else
        let updatedEmails = returning (patch_condition req) (updateData now req) (emails db);
            db' = db\<lparr>emails := update_where (patch_condition req) (updateData now req) (emails db)\<rparr>
        in if updatedEmails = [] then (db', Inl (404, ''Email(s) not found''))
           else let (db'', stats) = recalculateStats now db'
                in (db'', Inr (hd updatedEmails, updatedEmails, stats)))"

text \<open>The query parameters of a delete request.\<close>

record DeleteParams =
  d_id :: "string option"
  d_threadId :: "string option"
  d_filter :: "string option"

definition delete_condition :: "DeleteParams \<Rightarrow> (Email \<Rightarrow> bool) option" where
  "delete_condition ps =
     (if truthy_str (d_threadId ps) then
        Some (and_all
          ([\<lambda>e. threadId e = the (d_threadId ps), \<lambda>e. \<not> isDeleted e]
           @ (if d_filter ps = Some ''important'' then [\<lambda>e. isImportant e] else [])))
      else case parseInt (the (d_id ps)) of
             None \<Rightarrow> None
           | Some emailId' \<Rightarrow> Some (\<lambda>e. emailId e = emailId'))"

text \<open>\<open>DELETE /api/emails?id=&threadId=&filter=\<close>: the message and the stats.\<close>

definition DELETE :: "int \<Rightarrow> DeleteParams \<Rightarrow> Db \<Rightarrow> Db \<times> (error + (string \<times> EmailStats))" where
  "DELETE now ps db =
     (if \<not> truthy_str (d_id ps) \<and> \<not> truthy_str (d_threadId ps)
        then (db, Inl (400, ''Email ID or Thread ID is required''))
      else case delete_condition ps of
        None \<Rightarrow> (db, Inl (400, ''Invalid email ID''))
      | Some cond \<Rightarrow>
          let set_deleted = (\<lambda>e. e\<lparr>isDeleted := True, updatedAt := now\<rparr>);
              deleted_rows = returning cond set_deleted (emails db);
              db' = db\<lparr>emails := update_where cond set_deleted (emails db)\<rparr>
          in if deleted_rows = [] then (db', Inl (404, ''Email(s) not found''))
             else let (db'', stats) = recalculateStats now db'
                  in (db'', Inr (if truthy_str (d_threadId ps) then ''Thread moved to trash''
                                 else ''Email moved to trash'', stats)))"

section \<open>The filter table of the specification, and sample rows\<close>

text \<open>
  The predicate that the specification's filter table gives for each of the five filter
  names (written from the table, not from the code).
\<close>

definition filter_table :: "string \<Rightarrow> Email \<Rightarrow> bool" where
  "filter_table F e =
     (if F = ''inbox'' then direction e = INCOMING \<and> \<not> isDeleted e
      else if F = ''unread'' then \<not> isRead e \<and> \<not> isDeleted e
      else if F = ''important'' then isImportant e \<and> \<not> isDeleted e
      else if F = ''sent'' then direction e = OUTGOING \<and> \<not> isDeleted e
      else if F = ''trash'' then isDeleted e
      else False)"

definition filter_names :: "string list" where
  "filter_names = [''inbox'', ''unread'', ''important'', ''sent'', ''trash'']"

text \<open>The stats row that \<open>recalculateStats\<close> writes for a snapshot.\<close>

definition stats_row_of :: "int \<Rightarrow> EmailStats \<Rightarrow> EmailStatsRow" where
  "stats_row_of now s =
     \<lparr>inboxEmailCount = total s, unreadEmailCount = unread s, importantEmailCount = important s,
      sentEmailCount = sent s, statsUpdatedAt = now\<rparr>"

text \<open>A sample row: id, thread, read, important, deleted, direction, creation time.\<close>

definition mkEmail :: "int \<Rightarrow> string \<Rightarrow> bool \<Rightarrow> bool \<Rightarrow> bool \<Rightarrow> EmailDirection \<Rightarrow> int \<Rightarrow> Email" where
  "mkEmail i t r imp d dir c =
     \<lparr>emailId = i, threadId = t, subject = ''Hi'', from_addr = ''a@b.com'',
      to_addr = ''me@company.com'', content = Some ''hello'', isRead = r, isImportant = imp,
      isDeleted = d, direction = dir, createdAt = c, updatedAt = c\<rparr>"

text \<open>A store with one deleted email and no stats row yet.\<close>

definition db_one_deleted :: Db where
  "db_one_deleted =
     \<lparr>emails = [mkEmail 1 ''t1'' True False True INCOMING 100], emailStats = None, nextId = 2\<rparr>"

text \<open>What the thread route selects within a thread, for each filter name.\<close>

definition thread_filter_table :: "string \<Rightarrow> Email \<Rightarrow> bool" where
  "thread_filter_table F e =
     (if F = ''trash'' then isDeleted e
      else if F = ''important'' then isImportant e \<and> \<not> isDeleted e
      else \<not> isDeleted e)"

text \<open>A store whose only email is an outgoing one of thread t1.\<close>

definition db_t1_outgoing :: Db where
  "db_t1_outgoing =
     \<lparr>emails = [mkEmail 1 ''t1'' True False False OUTGOING 100], emailStats = None, nextId = 2\<rparr>"




text \<open>A store with three emails of thread t1 (an important one, a plain one and a deleted
  important one) and an important email of thread t2.\<close>

definition db_t1_mixed :: Db where
  "db_t1_mixed =
     \<lparr>emails = [mkEmail 1 ''t1'' True True False INCOMING 100,
                mkEmail 2 ''t1'' True False False INCOMING 101,
                mkEmail 3 ''t1'' True True True INCOMING 102,
                mkEmail 4 ''t2'' True True False INCOMING 103],
      emailStats = None, nextId = 5\<rparr>"

text \<open>The columns that no update request names are the same in two rows.\<close>

definition same_fields :: "Email \<Rightarrow> Email \<Rightarrow> bool" where
  "same_fields e e' =
     (emailId e' = emailId e \<and> threadId e' = threadId e \<and> subject e' = subject e
      \<and> from_addr e' = from_addr e \<and> to_addr e' = to_addr e \<and> content e' = content e
      \<and> direction e' = direction e \<and> createdAt e' = createdAt e)"

text \<open>Setting the update time of the row with a given id, and nothing else.\<close>

definition touch :: "int \<Rightarrow> int \<Rightarrow> Email \<Rightarrow> Email" where
  "touch i t x = (if emailId x = i then x\<lparr>updatedAt := t\<rparr> else x)"

text \<open>The stats row exists and holds the four counts of the email table.\<close>

definition stats_consistent :: "Db \<Rightarrow> bool" where
  "stats_consistent db =
     (case emailStats db of
        None \<Rightarrow> False
      | Some row \<Rightarrow> row\<lparr>statsUpdatedAt := 0\<rparr> = stats_row_of 0 (snd (recalculateStats 0 db)))"

text \<open>The requests that the client sends to delete and to restore one email
  (\<open>deleteEmail\<close> and \<open>restoreEmail\<close> of the email service), and a delete followed by a
  restore.\<close>

definition delete_by_id :: "string \<Rightarrow> DeleteParams" where
  "delete_by_id s = \<lparr>d_id = Some s, d_threadId = None, d_filter = None\<rparr>"

definition restore_by_id :: "int \<Rightarrow> UpdateRequest" where
  "restore_by_id i =
     \<lparr>p_id = Some i, p_threadId = None, p_isRead = None, p_isImportant = None,
      p_isDeleted = Some False\<rparr>"

definition delete_then_restore :: "int \<Rightarrow> int \<Rightarrow> string \<Rightarrow> int \<Rightarrow> Db \<Rightarrow> Db" where
  "delete_then_restore t1 t2 s i db =
     fst (PATCH t2 (restore_by_id i) (fst (DELETE t1 (delete_by_id s) db)))"

section \<open>The list query and the filter table\<close>

lemma getFilterCondition_table:
  "F \<in> set filter_names \<Longrightarrow> getFilterCondition (Some F) = filter_table F"
  by (auto simp: filter_names_def getFilterCondition_def filter_table_def fun_eq_iff)

lemma and_all_conditions:
  "and_all (conditions params) e \<Longrightarrow> getFilterCondition (filter_name params) e"
  by (simp add: and_all_def conditions_def)

text \<open>Without threading, every returned record satisfies the predicate of the filter.\<close>

lemma fetchEmails_unthreaded_filter:
  assumes "F \<in> set filter_names" and "\<not> threaded params" and "filter_name params = Some F"
    and "e \<in> set (fetchEmails params rows)"
  shows "filter_table F e"
  using assms and_all_conditions[of params e] getFilterCondition_table[of F]
  by (auto simp: fetchEmails_def orderBy_desc_createdAt_def)

text \<open>The threaded query, read as a selection from the table: the rows whose thread id
  and creation time are a row of \<open>latest\<close>.\<close>

lemma distinct_fst_latest: "distinct (map fst (latest conds rows))"
  by (simp add: latest_def Let_def comp_def)

lemma set_latest:
  "(t, m) \<in> set (latest conds rows) \<longleftrightarrow>
     (\<exists>e \<in> set rows. and_all conds e \<and> threadId e = t)
     \<and> m = Max (createdAt ` {e \<in> set rows. and_all conds e \<and> threadId e = t})"
proof -
  have "{x \<in> set rows. and_all conds x \<and> threadId x = t}
        = {e. (e \<in> set rows \<and> and_all conds e) \<and> threadId e = t}" by blast
  then show ?thesis
    by (auto simp: latest_def Let_def image_iff conj_commute conj_left_commute)
qed

lemma join_latest_row:
  assumes "distinct (map fst L)"
  shows "map (\<lambda>l. e) (filter (\<lambda>l. a = fst l \<and> b = snd l) L) = (if (a, b) \<in> set L then [e] else [])"
  using assms
proof (induction L)
  case Nil
  then show ?case by simp
next
  case (Cons l L)
  then show ?case 
    by (cases l) (auto simp: image_iff filter_empty_conv)
qed

lemma join_latest:
  assumes "distinct (map fst L)"
  shows "concat (map (\<lambda>e. map (\<lambda>l. e) (filter (\<lambda>l. threadId e = fst l \<and> createdAt e = snd l) L)) rows)
         = filter (\<lambda>e. (threadId e, createdAt e) \<in> set L) rows"
  by (induction rows) (simp_all add: join_latest_row[OF assms])

lemma fetchThreadedEmails_eq:
  "fetchThreadedEmails conds rows
     = orderBy_desc_createdAt
         (filter (\<lambda>e. (threadId e, createdAt e) \<in> set (latest conds rows)) rows)"
  by (simp add: fetchThreadedEmails_def join_latest[OF distinct_fst_latest])

text \<open>Every record of the threaded result has the largest creation time among the
  matching records of its thread.\<close>

lemma threaded_createdAt_is_max:
  assumes "e \<in> set (fetchThreadedEmails conds rows)"
  shows "e \<in> set rows
         \<and> (\<exists>m \<in> set rows. and_all conds m \<and> threadId m = threadId e \<and> createdAt m = createdAt e)
         \<and> (\<forall>m \<in> set rows. and_all conds m \<and> threadId m = threadId e \<longrightarrow> createdAt m \<le> createdAt e)"
proof -
  let ?S = "createdAt ` {m \<in> set rows. and_all conds m \<and> threadId m = threadId e}"
  from assms have r: "e \<in> set rows" and l: "(threadId e, createdAt e) \<in> set (latest conds rows)"
    by (simp_all add: fetchThreadedEmails_eq orderBy_desc_createdAt_def)
  from l have ne: "?S \<noteq> {}" and mx: "createdAt e = Max ?S"
    by (auto simp: set_latest)
  have fin: "finite ?S" by simp
  have "createdAt e \<in> ?S" unfolding mx by (rule Max_in[OF fin ne])
  moreover have "\<And>x. x \<in> ?S \<Longrightarrow> x \<le> createdAt e"
    unfolding mx by (rule Max_ge[OF fin])
  ultimately show ?thesis using r by auto
qed

text \<open>When no two rows share thread id and creation time, the threaded result has one
  record for each thread.\<close>

lemma threaded_one_per_thread:
  assumes "distinct rows" and "inj_on (\<lambda>e. (threadId e, createdAt e)) (set rows)"
  shows "distinct (map threadId (fetchThreadedEmails conds rows))"
proof -
  let ?F = "filter (\<lambda>e. (threadId e, createdAt e) \<in> set (latest conds rows)) rows"
  have d: "distinct ?F" using assms(1) by simp
  have "inj_on threadId (set ?F)"
  proof (rule inj_onI)
    fix x y assume x: "x \<in> set ?F" and y: "y \<in> set ?F" and t: "threadId x = threadId y"
    from x y t have "createdAt x = createdAt y"
      by (auto simp: set_latest)
    with t x y assms(2) show "x = y"
      by (auto dest: inj_onD)
  qed
  with d have "distinct (map threadId ?F)" by (simp add: distinct_map)
  moreover have "mset (map threadId (fetchThreadedEmails conds rows)) = mset (map threadId ?F)"
    by (simp add: fetchThreadedEmails_eq orderBy_desc_createdAt_def)
  ultimately show ?thesis by (metis mset_eq_imp_distinct_iff)
qed

text \<open>With threading, a returned record has the thread id and the creation time of a
  record that satisfies the filter.\<close>

lemma threaded_shares_key_with_match:
  assumes "F \<in> set filter_names" and "threaded params" and "filter_name params = Some F"
    and "e \<in> set (fetchEmails params rows)"
  shows "\<exists>m \<in> set rows. filter_table F m \<and> threadId m = threadId e \<and> createdAt m = createdAt e"
proof -
  from assms(2,4) have "e \<in> set (fetchThreadedEmails (conditions params) rows)"
    by (simp add: fetchEmails_def)
  then obtain m where "m \<in> set rows" "and_all (conditions params) m" "threadId m = threadId e"
    "createdAt m = createdAt e"
    using threaded_createdAt_is_max by blast
  then show ?thesis
    using and_all_conditions[of params m] getFilterCondition_table[OF assms(1)] assms(3)
    by auto
qed

text \<open>
  C1. Every record returned under a filter satisfies the filter's predicate, and only
  trash returns deleted records. The threaded query breaks this: its join back to the
  table compares thread id and creation time only, so a deleted email created at the
  same time as the latest inbox email of its thread is returned under the inbox filter.
\<close>

theorem C1_threaded_inbox_returns_deleted:
  "map (\<lambda>e. (emailId e, isDeleted e, filter_table ''inbox'' e))
     (fetchEmails \<lparr>filter_name = Some ''inbox'', query = None, threaded = True\<rparr>
        [mkEmail 1 ''t1'' False False False INCOMING 100,
         mkEmail 2 ''t1'' False False True INCOMING 100])
   = [(1, False, True), (2, True, False)]"
  by code_simp

text \<open>
  C2. The threaded query returns at most one record for each thread id. It does not when
  two matching emails of a thread have the same creation time: both are returned.
\<close>

theorem C2_threaded_returns_two_of_one_thread:
  "map (\<lambda>e. (emailId e, threadId e))
     (fetchEmails \<lparr>filter_name = Some ''inbox'', query = None, threaded = True\<rparr>
        [mkEmail 1 ''t1'' True False False INCOMING 100,
         mkEmail 2 ''t1'' False False False INCOMING 100,
         mkEmail 3 ''t1'' False False False INCOMING 50])
   = [(1, ''t1''), (2, ''t1'')]"
  by code_simp

section \<open>Stats\<close>

lemma emails_recalculateStats [simp]: "emails (fst (recalculateStats now db)) = emails db"
  by (simp add: recalculateStats_def Let_def)

lemma recalculateStats_time: "snd (recalculateStats u db) = snd (recalculateStats v db)"
  by (simp add: recalculateStats_def Let_def)

lemma recalculateStats_emails_cong:
  "emails db' = emails db \<Longrightarrow> snd (recalculateStats u db') = snd (recalculateStats v db)"
  by (simp add: recalculateStats_def Let_def)

lemma stats_consistent_recalculateStats: "stats_consistent (fst (recalculateStats now db))"
  by (simp add: stats_consistent_def recalculateStats_def Let_def stats_row_of_def)

lemma stats_consistent_PATCH:
  "snd (PATCH now req db) = Inr r \<Longrightarrow> stats_consistent (fst (PATCH now req db))"
  using stats_consistent_recalculateStats
  by (auto simp: PATCH_def Let_def case_prod_unfold split: if_splits)

lemma stats_consistent_DELETE:
  "snd (DELETE now ps db) = Inr r \<Longrightarrow> stats_consistent (fst (DELETE now ps db))"
  using stats_consistent_recalculateStats
  by (auto simp: DELETE_def Let_def case_prod_unfold split: if_splits option.splits)

lemma stats_consistent_POST:
  "snd (POST now fresh bind_text req db) = Inr r
   \<Longrightarrow> stats_consistent (fst (POST now fresh bind_text req db))"
  using stats_consistent_recalculateStats
  by (auto simp: POST_def Let_def invalidateStats_def
      split: if_splits completion.splits option.splits)

lemma getStats_consistent:
  assumes "stats_consistent db"
  shows "snd (getStats u db) = (snd (recalculateStats v db))\<lparr>deleted := 0\<rparr>"
proof -
  obtain row where r: "emailStats db = Some row"
    and c: "row\<lparr>statsUpdatedAt := 0\<rparr> = stats_row_of 0 (snd (recalculateStats 0 db))"
    using assms by (auto simp: stats_consistent_def split: option.splits)
  have "inboxEmailCount (row\<lparr>statsUpdatedAt := 0\<rparr>) = total (snd (recalculateStats 0 db))"
    "unreadEmailCount (row\<lparr>statsUpdatedAt := 0\<rparr>) = unread (snd (recalculateStats 0 db))"
    "importantEmailCount (row\<lparr>statsUpdatedAt := 0\<rparr>) = important (snd (recalculateStats 0 db))"
    "sentEmailCount (row\<lparr>statsUpdatedAt := 0\<rparr>) = sent (snd (recalculateStats 0 db))"
    unfolding c by (simp_all add: stats_row_of_def)
  then have "inboxEmailCount row = total (snd (recalculateStats v db))"
    "unreadEmailCount row = unread (snd (recalculateStats v db))"
    "importantEmailCount row = important (snd (recalculateStats v db))"
    "sentEmailCount row = sent (snd (recalculateStats v db))"
    by (simp_all add: recalculateStats_time[of v db 0])
  then show ?thesis
    by (simp add: getStats_def r)
qed

lemma PATCH_returns_recalculated:
  "snd (PATCH now req db) = Inr (e, es, st)
   \<Longrightarrow> st = snd (recalculateStats now (fst (PATCH now req db)))"
  by (auto simp: PATCH_def Let_def case_prod_unfold recalculateStats_emails_cong split: if_splits)

lemma DELETE_returns_recalculated:
  "snd (DELETE now ps db) = Inr (msg, st)
   \<Longrightarrow> st = snd (recalculateStats now (fst (DELETE now ps db)))"
  by (auto simp: DELETE_def Let_def case_prod_unfold recalculateStats_emails_cong
      split: if_splits option.splits)

text \<open>
  C3, as the code has it. \<open>recalculateStats\<close> returns the counts of the filter table for
  inbox, important, sent and trash; its unread count is the count of unread, not deleted
  emails that are also incoming; it stores the inbox, unread, important and sent counts
  with the time of the call in the stats row (the deleted count has no column) and leaves
  the email table as it is. After a successful create, update or soft delete the stats row
  holds these four counts of the new table, and the stats in the response of an update or
  a soft delete are the recalculated ones. From a stats row in step with the table,
  \<open>getStats\<close> returns the recalculated counters with a deleted count of 0.
\<close>

theorem C3_recalculateStats_counts:
  "total (snd (recalculateStats now db)) = count_where (filter_table ''inbox'') (emails db)
   \<and> unread (snd (recalculateStats now db))
       = count_where (\<lambda>e. direction e = INCOMING \<and> filter_table ''unread'' e) (emails db)
   \<and> important (snd (recalculateStats now db)) = count_where (filter_table ''important'') (emails db)
   \<and> sent (snd (recalculateStats now db)) = count_where (filter_table ''sent'') (emails db)
   \<and> deleted (snd (recalculateStats now db)) = count_where (filter_table ''trash'') (emails db)
   \<and> emailStats (fst (recalculateStats now db))
       = Some (stats_row_of now (snd (recalculateStats now db)))
   \<and> emails (fst (recalculateStats now db)) = emails db
   \<and> (\<forall>r. snd (POST now fresh bind_text creq db) = Inr r \<longrightarrow>
         stats_consistent (fst (POST now fresh bind_text creq db)))
   \<and> (\<forall>e es st. snd (PATCH now preq db) = Inr (e, es, st) \<longrightarrow>
         stats_consistent (fst (PATCH now preq db))
         \<and> st = snd (recalculateStats now (fst (PATCH now preq db))))
   \<and> (\<forall>msg st. snd (DELETE now dps db) = Inr (msg, st) \<longrightarrow>
         stats_consistent (fst (DELETE now dps db))
         \<and> st = snd (recalculateStats now (fst (DELETE now dps db))))
   \<and> (stats_consistent db \<longrightarrow>
         snd (getStats now db) = (snd (recalculateStats now db))\<lparr>deleted := 0\<rparr>)"
proof -
  have a: "total (snd (recalculateStats now db)) = count_where (filter_table ''inbox'') (emails db)
   \<and> unread (snd (recalculateStats now db))
       = count_where (\<lambda>e. direction e = INCOMING \<and> filter_table ''unread'' e) (emails db)
   \<and> important (snd (recalculateStats now db)) = count_where (filter_table ''important'') (emails db)
   \<and> sent (snd (recalculateStats now db)) = count_where (filter_table ''sent'') (emails db)
   \<and> deleted (snd (recalculateStats now db)) = count_where (filter_table ''trash'') (emails db)
   \<and> emailStats (fst (recalculateStats now db))
       = Some (stats_row_of now (snd (recalculateStats now db)))
   \<and> emails (fst (recalculateStats now db)) = emails db"
    by (simp add: recalculateStats_def filter_table_def[abs_def] stats_row_of_def Let_def)
  show ?thesis
    using a stats_consistent_POST[of now fresh bind_text creq db]
      stats_consistent_PATCH[of now preq db] PATCH_returns_recalculated[of now preq db]
      stats_consistent_DELETE[of now dps db] DELETE_returns_recalculated[of now dps db]
      getStats_consistent[of db now now]
    by blast
qed

theorem C3_recalculateStats_counts_witness:
  "snd (DELETE 200 (delete_by_id ''2'') db_t1_mixed)
     = Inr (''Email moved to trash'',
            \<lparr>total = 2, unread = 0, important = 2, deleted = 2, sent = 0\<rparr>)
   \<and> stats_consistent (fst (DELETE 200 (delete_by_id ''2'') db_t1_mixed))
   \<and> snd (getStats 201 (fst (DELETE 200 (delete_by_id ''2'') db_t1_mixed)))
       = \<lparr>total = 2, unread = 0, important = 2, deleted = 0, sent = 0\<rparr>"
proof -
  let ?db' = "fst (DELETE 200 (delete_by_id ''2'') db_t1_mixed)"
  have d: "snd (DELETE 200 (delete_by_id ''2'') db_t1_mixed)
     = Inr (''Email moved to trash'',
            \<lparr>total = 2, unread = 0, important = 2, deleted = 2, sent = 0\<rparr>)"
    by code_simp
  have sc: "stats_consistent ?db'"
    and st: "\<lparr>total = 2, unread = 0, important = 2, deleted = 2, sent = 0\<rparr>
             = snd (recalculateStats 200 ?db')"
    using C3_recalculateStats_counts[where now = 200 and db = db_t1_mixed
        and dps = "delete_by_id ''2''"] d
    by blast+
  have "snd (getStats 201 ?db') = (snd (recalculateStats 201 ?db'))\<lparr>deleted := 0\<rparr>"
    using C3_recalculateStats_counts[where now = 201 and db = ?db'] sc by blast
  also have "\<dots> = (snd (recalculateStats 200 ?db'))\<lparr>deleted := 0\<rparr>"
    by (simp only: recalculateStats_time[of 201 ?db' 200])
  finally show ?thesis using d sc st[symmetric] by simp
qed

text \<open>C3 as stated fails: an outgoing unread email is counted by the unread filter of the
  table and not by the unread counter.\<close>

theorem C3_unread_counterexample:
  "unread (snd (recalculateStats 0
      \<lparr>emails = [mkEmail 1 ''t1'' False False False OUTGOING 100], emailStats = None, nextId = 2\<rparr>))
   \<noteq> count_where (filter_table ''unread'') [mkEmail 1 ''t1'' False False False OUTGOING 100]"
  by (simp add: recalculateStats_def filter_table_def count_where_def mkEmail_def)

text \<open>
  C4. \<open>getStats\<close> recalculates when the stats row is absent. When the row exists it
  leaves the store alone and returns the row's four counters with a deleted count of 0,
  whatever the table holds: even right after a recalculation the deleted count it returns
  can differ from the one the recalculation returned.
\<close>

theorem C4_getStats:
  "(emailStats db = None \<longrightarrow> getStats now db = recalculateStats now db)
   \<and> (\<forall>row. emailStats db = Some row \<longrightarrow>
        fst (getStats now db) = db
        \<and> total (snd (getStats now db)) = inboxEmailCount row
        \<and> unread (snd (getStats now db)) = unreadEmailCount row
        \<and> important (snd (getStats now db)) = importantEmailCount row
        \<and> sent (snd (getStats now db)) = sentEmailCount row
        \<and> deleted (snd (getStats now db)) = 0)
   \<and> (\<exists>db0. deleted (snd (getStats now (fst (recalculateStats now db0))))
              \<noteq> deleted (snd (recalculateStats now db0)))"
proof -
  have "deleted (snd (getStats now (fst (recalculateStats now db_one_deleted))))
        \<noteq> deleted (snd (recalculateStats now db_one_deleted))"
    by (simp add: getStats_def recalculateStats_def db_one_deleted_def count_where_def
        mkEmail_def)
  then show ?thesis by (auto simp: getStats_def)
qed

theorem C4_getStats_witness:
  "emailStats db_one_deleted = None
   \<and> deleted (snd (getStats 7 db_one_deleted)) = 1
   \<and> emailStats (fst (recalculateStats 7 db_one_deleted)) \<noteq> None
   \<and> deleted (snd (getStats 8 (fst (recalculateStats 7 db_one_deleted)))) = 0"
proof -
  have a: "emailStats db_one_deleted = None" by (simp add: db_one_deleted_def)
  have b: "getStats 7 db_one_deleted = recalculateStats 7 db_one_deleted"
    using C4_getStats[of db_one_deleted 7] a by blast
  have c: "emailStats (fst (recalculateStats 7 db_one_deleted))
           = Some (stats_row_of 7 (snd (recalculateStats 7 db_one_deleted)))"
    by (simp add: recalculateStats_def stats_row_of_def Let_def)
  have d: "deleted (snd (getStats 8 (fst (recalculateStats 7 db_one_deleted)))) = 0"
    using C4_getStats[of "fst (recalculateStats 7 db_one_deleted)" 8] c by blast
  have e: "deleted (snd (recalculateStats 7 db_one_deleted)) = 1"
    by (simp add: recalculateStats_def count_where_def mkEmail_def db_one_deleted_def)
  show ?thesis using a b c d e by simp
qed

section \<open>The thread route\<close>

text \<open>
  C5, as the code has it. For a thread id and a filter name, the thread route returns
  exactly the records of the thread that are deleted (trash), important and not deleted
  (important), or not deleted (inbox, unread, sent), oldest first.
\<close>

theorem C5_thread_GET:
  assumes "tid \<noteq> []" and "F \<in> set filter_names"
  shows "\<exists>rs. thread_GET tid (Some F) db = Inr (rs, length rs)
           \<and> mset rs = mset (filter (\<lambda>e. threadId e = tid \<and> thread_filter_table F e) (emails db))
           \<and> sorted (map createdAt rs)"
proof -
  have F: "F \<noteq> []" using assms(2) by (auto simp: filter_names_def)
  have c: "getThreadFilterCondition tid (Some F) = (\<lambda>e. threadId e = tid \<and> thread_filter_table F e)"
    by (auto simp: getThreadFilterCondition_def thread_filter_table_def fun_eq_iff)
  show ?thesis
    using assms(1) F
    by (simp add: thread_GET_def or_undefined_def truthy_str_def c orderBy_asc_createdAt_def)
qed

theorem C5_thread_GET_witness:
  "thread_GET ''t1'' (Some ''inbox'') db_t1_outgoing
     = Inr ([mkEmail 1 ''t1'' True False False OUTGOING 100], 1)"
proof -
  obtain rs where r: "thread_GET ''t1'' (Some ''inbox'') db_t1_outgoing = Inr (rs, length rs)"
    and m: "mset rs = mset (filter (\<lambda>e. threadId e = ''t1'' \<and> thread_filter_table ''inbox'' e)
                                   (emails db_t1_outgoing))"
    using C5_thread_GET[of "''t1''" "''inbox''" db_t1_outgoing]
    by (auto simp: filter_names_def)
  have "mset rs = {#mkEmail 1 ''t1'' True False False OUTGOING 100#}"
    using m by (simp add: db_t1_outgoing_def thread_filter_table_def mkEmail_def)
  then have "rs = [mkEmail 1 ''t1'' True False False OUTGOING 100]"
    by (metis mset_single_iff_right)
  then show ?thesis using r by simp
qed

text \<open>C5 as stated fails: under the inbox filter the thread route returns an outgoing
  email, which the inbox predicate of the filter table excludes.\<close>

theorem C5_inbox_counterexample:
  "thread_GET ''t1'' (Some ''inbox'') db_t1_outgoing
     = Inr ([mkEmail 1 ''t1'' True False False OUTGOING 100], 1)
   \<and> \<not> filter_table ''inbox'' (mkEmail 1 ''t1'' True False False OUTGOING 100)"
  by (simp add: thread_GET_def or_undefined_def truthy_str_def getThreadFilterCondition_def
      orderBy_asc_createdAt_def db_t1_outgoing_def filter_table_def mkEmail_def)

section \<open>Mutations\<close>






text \<open>A create request that fails, with whatever status, writes nothing.\<close>

lemma POST_error_writes_nothing:
  "snd (POST now fresh bind_text req db) = Inl err \<Longrightarrow> fst (POST now fresh bind_text req db) = db"
  by (auto simp: POST_def Let_def split: if_splits completion.splits option.splits)

text \<open>A create request with subject, recipient and content is stored as an outgoing,
  read email of a new thread.\<close>

lemma POST_creates_outgoing_read:
  "snd (POST 5 ''thread-5-abc'' (\<lambda>v. None)
        \<lparr>c_subject = JString ''Hi'', c_to = JString ''a@b.com'', c_cc = JUndefined, c_bcc = JUndefined,
         c_content = JString ''hello'', c_threadId = JUndefined, c_direction = JUndefined\<rparr>
        db_one_deleted)
   = Inr \<lparr>emailId = 2, threadId = ''thread-5-abc'', subject = ''Hi'', from_addr = ''me@company.com'',
          to_addr = ''a@b.com'', content = Some ''hello'', isRead = True, isImportant = False,
          isDeleted = False, direction = OUTGOING, createdAt = 5, updatedAt = 5\<rparr>"
  by code_simp

lemma emails_DELETE:
  assumes "delete_condition ps = Some cond" and "truthy_str (d_id ps) \<or> truthy_str (d_threadId ps)"
  shows "emails (fst (DELETE now ps db))
           = update_where cond (\<lambda>e. e\<lparr>isDeleted := True, updatedAt := now\<rparr>) (emails db)"
  using assms by (auto simp: DELETE_def Let_def case_prod_unfold)

lemma emails_PATCH:
  "emails (fst (PATCH now req db))
     = (if \<not> truthy_num (p_id req) \<and> \<not> truthy_str (p_threadId req) then emails db
        else update_where (patch_condition req) (updateData now req) (emails db))"
  by (auto simp: PATCH_def Let_def case_prod_unfold)

lemma same_fields_updateData: "same_fields e (updateData now req e)"
  by (simp add: same_fields_def updateData_def)

text \<open>
  C6. A soft-delete addressed by thread id with filter important marks as deleted exactly
  the records of the thread that are important and not yet deleted, and leaves every
  other record as it is; so a record is deleted afterwards exactly when it was deleted
  before or is an important record of the thread.
\<close>

theorem C6_delete_thread_important:
  assumes "d_threadId ps = Some t" and "t \<noteq> []" and "d_filter ps = Some ''important''"
  shows "emails (fst (DELETE now ps db))
           = map (\<lambda>e. if threadId e = t \<and> isImportant e \<and> \<not> isDeleted e
                       then e\<lparr>isDeleted := True, updatedAt := now\<rparr> else e) (emails db)
         \<and> (\<forall>i < length (emails db).
               isDeleted (emails (fst (DELETE now ps db)) ! i)
                 = (isDeleted (emails db ! i)
                    \<or> (threadId (emails db ! i) = t \<and> isImportant (emails db ! i))))"
proof -
  have c: "delete_condition ps
             = Some (\<lambda>e. threadId e = t \<and> isImportant e \<and> \<not> isDeleted e)"
    using assms by (auto simp: delete_condition_def truthy_str_def and_all_def[abs_def])
  have m: "emails (fst (DELETE now ps db))
           = map (\<lambda>e. if threadId e = t \<and> isImportant e \<and> \<not> isDeleted e
                       then e\<lparr>isDeleted := True, updatedAt := now\<rparr> else e) (emails db)"
    using emails_DELETE[OF c, of now db] assms
    by (simp add: truthy_str_def update_where_def)
  show ?thesis unfolding m by auto
qed

theorem C6_delete_thread_important_witness:
  "map isDeleted (emails (fst (DELETE 200
      \<lparr>d_id = None, d_threadId = Some ''t1'', d_filter = Some ''important''\<rparr> db_t1_mixed)))
   = [True, False, True, False]"
proof -
  have "emails (fst (DELETE 200
      \<lparr>d_id = None, d_threadId = Some ''t1'', d_filter = Some ''important''\<rparr> db_t1_mixed))
     = map (\<lambda>e. if threadId e = ''t1'' \<and> isImportant e \<and> \<not> isDeleted e
                       then e\<lparr>isDeleted := True, updatedAt := 200\<rparr> else e) (emails db_t1_mixed)"
    using C6_delete_thread_important[of "\<lparr>d_id = None, d_threadId = Some ''t1'', d_filter = Some ''important''\<rparr>" "''t1''" 200 db_t1_mixed]
    by simp
  then show ?thesis by (simp add: db_t1_mixed_def mkEmail_def)
qed




text \<open>
  C8. An update request keeps the number of rows; in every row the columns other than the
  three flags and the update time keep their values, a flag that the request lacks keeps
  its value, and a row that the request does not address is unchanged. In an addressed
  row of an accepted request each flag that the request has takes the requested value.
\<close>

theorem C8_patch_frame:
  "length (emails (fst (PATCH now req db))) = length (emails db)
   \<and> (\<forall>i < length (emails db).
        same_fields (emails db ! i) (emails (fst (PATCH now req db)) ! i)
        \<and> (p_isRead req = None \<longrightarrow>
             isRead (emails (fst (PATCH now req db)) ! i) = isRead (emails db ! i))
        \<and> (p_isImportant req = None \<longrightarrow>
             isImportant (emails (fst (PATCH now req db)) ! i) = isImportant (emails db ! i))
        \<and> (p_isDeleted req = None \<longrightarrow>
             isDeleted (emails (fst (PATCH now req db)) ! i) = isDeleted (emails db ! i))
        \<and> (\<not> patch_condition req (emails db ! i) \<longrightarrow>
             emails (fst (PATCH now req db)) ! i = emails db ! i)
        \<and> ((truthy_num (p_id req) \<or> truthy_str (p_threadId req))
             \<and> patch_condition req (emails db ! i) \<longrightarrow>
             updatedAt (emails (fst (PATCH now req db)) ! i) = now
             \<and> (\<forall>v. p_isRead req = Some v \<longrightarrow> isRead (emails (fst (PATCH now req db)) ! i) = v)
             \<and> (\<forall>v. p_isImportant req = Some v \<longrightarrow>
                    isImportant (emails (fst (PATCH now req db)) ! i) = v)
             \<and> (\<forall>v. p_isDeleted req = Some v \<longrightarrow>
                    isDeleted (emails (fst (PATCH now req db)) ! i) = v)))"
  by (auto simp: emails_PATCH update_where_def same_fields_updateData)
     (auto simp: same_fields_def updateData_def)

theorem C8_patch_frame_witness:
  "(1::nat) < length (emails db_t1_mixed)
   \<and> patch_condition
        \<lparr>p_id = Some 2, p_threadId = None, p_isRead = Some False, p_isImportant = None,
         p_isDeleted = None\<rparr> (emails db_t1_mixed ! 1)
   \<and> emails (fst (PATCH 200
        \<lparr>p_id = Some 2, p_threadId = None, p_isRead = Some False, p_isImportant = None,
         p_isDeleted = None\<rparr> db_t1_mixed)) ! 1
      = (mkEmail 2 ''t1'' False False False INCOMING 101)\<lparr>updatedAt := 200\<rparr>
   \<and> emails (fst (PATCH 200
        \<lparr>p_id = Some 2, p_threadId = None, p_isRead = Some False, p_isImportant = None,
         p_isDeleted = None\<rparr> db_t1_mixed)) ! 0
      = emails db_t1_mixed ! 0"
proof -
  let ?req = "\<lparr>p_id = Some 2, p_threadId = None, p_isRead = Some False, p_isImportant = None,
         p_isDeleted = None\<rparr>"
  let ?e' = "emails (fst (PATCH 200 ?req db_t1_mixed)) ! 1"
  have l1: "(1::nat) < length (emails db_t1_mixed)" and l0: "(0::nat) < length (emails db_t1_mixed)"
    by (simp_all add: db_t1_mixed_def)
  have pc: "patch_condition ?req (emails db_t1_mixed ! 1)"
    and npc: "\<not> patch_condition ?req (emails db_t1_mixed ! 0)"
    by (simp_all add: patch_condition_def truthy_str_def db_t1_mixed_def mkEmail_def)
  have v: "truthy_num (p_id ?req) \<or> truthy_str (p_threadId ?req)"
    by (simp add: truthy_num_def)
  note t0 = C8_patch_frame[of 200 ?req db_t1_mixed, THEN conjunct2, THEN spec, THEN mp, OF l0]
  note t1 = C8_patch_frame[of 200 ?req db_t1_mixed, THEN conjunct2, THEN spec, THEN mp, OF l1]
  from t0 npc have z: "emails (fst (PATCH 200 ?req db_t1_mixed)) ! 0 = emails db_t1_mixed ! 0"
    by blast
  from t1 have sf: "same_fields (emails db_t1_mixed ! 1) ?e'"
    and imp: "isImportant ?e' = isImportant (emails db_t1_mixed ! 1)"
    and del: "isDeleted ?e' = isDeleted (emails db_t1_mixed ! 1)"
    by simp_all
  from t1 pc v have upd: "updatedAt ?e' = 200" and rd: "isRead ?e' = False"
    by auto
  have "?e' = (mkEmail 2 ''t1'' False False False INCOMING 101)\<lparr>updatedAt := 200\<rparr>"
    using sf imp del upd rd
    by (simp add: same_fields_def db_t1_mixed_def mkEmail_def)
  then show ?thesis using l1 pc z by simp
qed

text \<open>
  C10. An update addressed by thread id changes every record of the thread; a record of
  the thread that is already deleted is updated too, while a soft-delete addressed by the
  same thread id leaves it as it is.
\<close>

theorem C10_patch_thread_includes_deleted:
  assumes "p_threadId req = Some t" and "t \<noteq> []"
  shows "emails (fst (PATCH now req db))
           = map (\<lambda>e. if threadId e = t then updateData now req e else e) (emails db)
         \<and> (\<forall>i < length (emails db).
               threadId (emails db ! i) = t \<and> isDeleted (emails db ! i) \<longrightarrow>
               emails (fst (PATCH now req db)) ! i = updateData now req (emails db ! i)
               \<and> emails (fst (DELETE now \<lparr>d_id = x, d_threadId = Some t, d_filter = f\<rparr> db)) ! i
                   = emails db ! i)"
proof -
  have p: "emails (fst (PATCH now req db))
           = map (\<lambda>e. if threadId e = t then updateData now req e else e) (emails db)"
    using assms
    by (simp add: emails_PATCH truthy_str_def update_where_def patch_condition_def)
  obtain cond where c: "delete_condition \<lparr>d_id = x, d_threadId = Some t, d_filter = f\<rparr> = Some cond"
    and nd: "\<And>e. isDeleted e \<Longrightarrow> \<not> cond e"
    using assms(2) by (auto simp: delete_condition_def truthy_str_def and_all_def)
  have d: "emails (fst (DELETE now \<lparr>d_id = x, d_threadId = Some t, d_filter = f\<rparr> db))
           = update_where cond (\<lambda>e. e\<lparr>isDeleted := True, updatedAt := now\<rparr>) (emails db)"
    using emails_DELETE[OF c, of now db] assms(2) by (simp add: truthy_str_def)
  show ?thesis unfolding p d using nd by (auto simp: update_where_def)
qed

theorem C10_patch_thread_includes_deleted_witness:
  "(2::nat) < length (emails db_t1_mixed)
   \<and> threadId (emails db_t1_mixed ! 2) = ''t1'' \<and> isDeleted (emails db_t1_mixed ! 2)
   \<and> emails (fst (PATCH 200
        \<lparr>p_id = None, p_threadId = Some ''t1'', p_isRead = Some False, p_isImportant = None,
         p_isDeleted = None\<rparr> db_t1_mixed)) ! 2
      = (mkEmail 3 ''t1'' False True True INCOMING 102)\<lparr>updatedAt := 200\<rparr>
   \<and> emails (fst (DELETE 200 \<lparr>d_id = None, d_threadId = Some ''t1'', d_filter = None\<rparr>
                   db_t1_mixed)) ! 2
      = mkEmail 3 ''t1'' True True True INCOMING 102"
proof -
  let ?req = "\<lparr>p_id = None, p_threadId = Some ''t1'', p_isRead = Some False, p_isImportant = None,
         p_isDeleted = None\<rparr>"
  have h: "(2::nat) < length (emails db_t1_mixed)"
    "threadId (emails db_t1_mixed ! 2) = ''t1''" "isDeleted (emails db_t1_mixed ! 2)"
    by (simp_all add: db_t1_mixed_def mkEmail_def)
  have "emails (fst (PATCH 200 ?req db_t1_mixed)) ! 2 = updateData 200 ?req (emails db_t1_mixed ! 2)
        \<and> emails (fst (DELETE 200 \<lparr>d_id = None, d_threadId = Some ''t1'', d_filter = None\<rparr>
                       db_t1_mixed)) ! 2 = emails db_t1_mixed ! 2"
    using C10_patch_thread_includes_deleted[of ?req "''t1''" 200 db_t1_mixed None None] h
    by simp
  then show ?thesis using h
    by (simp add: updateData_def db_t1_mixed_def mkEmail_def)
qed

section \<open>Soft delete followed by restore\<close>

lemma touch_fields [simp]:
  "emailId (touch i t x) = emailId x" "threadId (touch i t x) = threadId x"
  "subject (touch i t x) = subject x" "from_addr (touch i t x) = from_addr x"
  "to_addr (touch i t x) = to_addr x" "content (touch i t x) = content x"
  "isRead (touch i t x) = isRead x" "isImportant (touch i t x) = isImportant x"
  "isDeleted (touch i t x) = isDeleted x" "direction (touch i t x) = direction x"
  "createdAt (touch i t x) = createdAt x"
  by (simp_all add: touch_def)

lemma and_all_conditions_touch [simp]:
  "and_all (conditions params) (touch i t x) = and_all (conditions params) x"
  by (simp add: and_all_def conditions_def getFilterCondition_def getSearchConditions_def
      split: option.splits)

lemma insort_key_map_inv:
  assumes "\<And>y. k (g y) = k y"
  shows "insort_key k (g x) (map g xs) = map g (insort_key k x xs)"
  by (induction xs) (simp_all add: assms)

lemma sort_key_map_inv:
  assumes "\<And>y. k (g y) = k y"
  shows "sort_key k (map g xs) = map g (sort_key k xs)"
  by (induction xs) (simp_all add: insort_key_map_inv[of k g, OF assms])

lemma filter_map_inv:
  assumes "\<And>y. P (g y) = P y"
  shows "filter P (map g xs) = map g (filter P xs)"
  by (induction xs) (simp_all add: assms)

lemma orderBy_desc_touch:
  "orderBy_desc_createdAt (map (touch i t) xs) = map (touch i t) (orderBy_desc_createdAt xs)"
  by (simp add: orderBy_desc_createdAt_def sort_key_map_inv)

lemma orderBy_asc_touch:
  "orderBy_asc_createdAt (map (touch i t) xs) = map (touch i t) (orderBy_asc_createdAt xs)"
  by (simp add: orderBy_asc_createdAt_def sort_key_map_inv)

lemma latest_touch: "latest (conditions params) (map (touch i t) xs) = latest (conditions params) xs"
proof -
  have f: "filter (and_all (conditions params)) (map (touch i t) xs)
           = map (touch i t) (filter (and_all (conditions params)) xs)"
    by (rule filter_map_inv) simp
  have g: "\<And>u ys. filter (\<lambda>e. threadId e = u) (map (touch i t) ys)
                 = map (touch i t) (filter (\<lambda>e. threadId e = u) ys)"
    by (rule filter_map_inv) simp
  have h1: "\<And>u. map createdAt (filter (\<lambda>e. threadId e = u)
                     (filter (and_all (conditions params)) (map (touch i t) xs)))
                 = map createdAt (filter (\<lambda>e. threadId e = u)
                     (filter (and_all (conditions params)) xs))"
    by (simp only: f g map_map comp_def touch_fields)
  have h2: "map threadId (filter (and_all (conditions params)) (map (touch i t) xs))
            = map threadId (filter (and_all (conditions params)) xs)"
    by (simp only: f map_map comp_def touch_fields)
  show ?thesis
    by (simp only: latest_def Let_def h1 h2)
qed

lemma fetchThreadedEmails_touch:
  "fetchThreadedEmails (conditions params) (map (touch i t) xs)
     = map (touch i t) (fetchThreadedEmails (conditions params) xs)"
  by (simp add: fetchThreadedEmails_def latest_touch orderBy_desc_touch[symmetric]
      map_concat comp_def)

lemma fetchEmails_touch:
  "fetchEmails params (map (touch i t) xs) = map (touch i t) (fetchEmails params xs)"
  by (simp add: fetchEmails_def fetchThreadedEmails_touch orderBy_desc_touch[symmetric]
      filter_map_inv)

lemma count_where_touch:
  assumes "\<And>y. P (touch i t y) = P y"
  shows "count_where P (map (touch i t) xs) = count_where P xs"
  by (simp add: count_where_def filter_map_inv[of P, OF assms])

lemma recalculateStats_touch:
  "emails db' = map (touch i t) (emails db)
   \<Longrightarrow> snd (recalculateStats u db') = snd (recalculateStats v db)"
  by (simp add: recalculateStats_def Let_def count_where_touch)

lemma parseInt_Some_nonempty: "parseInt s = Some i \<Longrightarrow> s \<noteq> []"
  by (auto simp: parseInt_def)

lemma DELETE_by_id:
  assumes "parseInt s = Some i"
  shows "emails (fst (DELETE t1 (delete_by_id s) db))
           = update_where (\<lambda>x. emailId x = i) (\<lambda>x. x\<lparr>isDeleted := True, updatedAt := t1\<rparr>)
               (emails db)"
proof -
  have c: "delete_condition (delete_by_id s) = Some (\<lambda>x. emailId x = i)"
    using assms by (simp add: delete_condition_def delete_by_id_def truthy_str_def)
  show ?thesis
    using emails_DELETE[OF c, of t1 db] parseInt_Some_nonempty[OF assms]
    by (simp add: delete_by_id_def truthy_str_def)
qed

lemma DELETE_by_id_ok:
  assumes "parseInt s = Some i" and "i \<in> emailId ` set (emails db)"
  shows "\<exists>r. snd (DELETE t1 (delete_by_id s) db) = Inr r"
proof -
  have c: "delete_condition (delete_by_id s) = Some (\<lambda>x. emailId x = i)"
    using assms by (simp add: delete_condition_def delete_by_id_def truthy_str_def)
  have "filter (\<lambda>x. emailId x = i) (emails db) \<noteq> []"
    using assms(2) by (auto simp: filter_empty_conv)
  then show ?thesis
    using parseInt_Some_nonempty[OF assms(1)]
    by (simp add: DELETE_def c[unfolded delete_by_id_def] delete_by_id_def truthy_str_def
        returning_def Let_def case_prod_unfold)
qed

lemma PATCH_restore_ok:
  assumes "i \<noteq> 0" and "i \<in> emailId ` set (emails db)"
  shows "\<exists>r. snd (PATCH t2 (restore_by_id i) db) = Inr r"
proof -
  have "filter (patch_condition (restore_by_id i)) (emails db) \<noteq> []"
    using assms(2) by (auto simp: filter_empty_conv patch_condition_def restore_by_id_def truthy_str_def)
  then show ?thesis
    using assms(1)
    by (simp add: PATCH_def restore_by_id_def truthy_num_def returning_def Let_def
        case_prod_unfold)
qed

lemma undelete_not_deleted:
  "\<not> isDeleted x \<Longrightarrow> x\<lparr>updatedAt := t, isDeleted := False\<rparr> = x\<lparr>updatedAt := t\<rparr>"
  by (cases x) simp

lemma delete_then_restore_emails:
  assumes "e \<in> set (emails db)" and "\<not> isDeleted e" and "emailId e \<noteq> 0"
    and "distinct (map emailId (emails db))" and "parseInt s = Some (emailId e)"
  shows "emails (fst (PATCH t2 (restore_by_id (emailId e)) (fst (DELETE t1 (delete_by_id s) db))))
         = map (touch (emailId e) t2) (emails db)"
proof -
  let ?R = "restore_by_id (emailId e)"
  let ?h = "\<lambda>x. if emailId x = emailId e then x\<lparr>isDeleted := True, updatedAt := t1\<rparr> else x"
  let ?p = "\<lambda>y. if patch_condition ?R y then updateData t2 ?R y else y"
  have u: "\<And>x. x \<in> set (emails db) \<Longrightarrow> emailId x = emailId e \<Longrightarrow> x = e"
    using assms(1,4) by (meson distinct_map inj_onD)
  have row: "?p (?h x) = touch (emailId e) t2 x" if "x \<in> set (emails db)" for x
  proof (cases "emailId x = emailId e")
    case True
    then have "\<not> isDeleted x" using u[OF that] assms(2) by simp
    then show ?thesis
      using True
      by (simp add: patch_condition_def restore_by_id_def truthy_str_def updateData_def
          touch_def undelete_not_deleted)
  next
    case False
    then show ?thesis
      by (simp add: patch_condition_def restore_by_id_def truthy_str_def touch_def)
  qed
  have valid: "truthy_num (p_id ?R)"
    using assms(3) by (simp add: restore_by_id_def truthy_num_def)
  have "emails (fst (PATCH t2 ?R (fst (DELETE t1 (delete_by_id s) db))))
        = map ?p (map ?h (emails db))"
    using valid by (simp add: emails_PATCH DELETE_by_id[OF assms(5)] update_where_def)
  also have "\<dots> = map (\<lambda>x. ?p (?h x)) (emails db)"
    by (simp only: map_map comp_def)
  also have "\<dots> = map (touch (emailId e) t2) (emails db)"
    by (rule map_cong) (simp_all only: row)
  finally show ?thesis .
qed

lemma emailId_update_where:
  assumes "\<And>x. emailId (f x) = emailId x"
  shows "map emailId (update_where c f xs) = map emailId xs"
  by (induction xs) (simp_all add: update_where_def assms)

lemma thread_GET_touch:
  assumes "emails db' = map (touch i t) (emails db)"
  shows "thread_GET tid f db'
         = map_sum id (\<lambda>r. (map (touch i t) (fst r), snd r)) (thread_GET tid f db)"
proof -
  have "filter (getThreadFilterCondition tid (or_undefined f)) (map (touch i t) (emails db))
        = map (touch i t) (filter (getThreadFilterCondition tid (or_undefined f)) (emails db))"
    by (rule filter_map_inv) (simp add: getThreadFilterCondition_def)
  then show ?thesis
    by (simp add: thread_GET_def assms orderBy_asc_touch Let_def)
qed

text \<open>
  C9, as the code has it. For an existing record that is not deleted (ids being unique and
  not 0), a soft delete by its id followed by a restore by its id both succeed and leave
  the email table as it was except for the update time of that record; every list query,
  every thread query and every recalculation of the counters then gives what it gave
  before, up to that update time, and so does \<open>getStats\<close> when the stats row was in step
  with the table before.
\<close>

theorem C9_delete_then_restore:
  assumes "e \<in> set (emails db)" and "\<not> isDeleted e" and "emailId e \<noteq> 0"
    and "distinct (map emailId (emails db))" and "parseInt s = Some (emailId e)"
  shows "(\<exists>r. snd (DELETE t1 (delete_by_id s) db) = Inr r)
     \<and> (\<exists>r. snd (PATCH t2 (restore_by_id (emailId e)) (fst (DELETE t1 (delete_by_id s) db))) = Inr r)
     \<and> emails (delete_then_restore t1 t2 s (emailId e) db) = map (touch (emailId e) t2) (emails db)
     \<and> (\<forall>params. fetchEmails params (emails (delete_then_restore t1 t2 s (emailId e) db))
                   = map (touch (emailId e) t2) (fetchEmails params (emails db)))
     \<and> (\<forall>tid f. thread_GET tid f (delete_then_restore t1 t2 s (emailId e) db)
                   = map_sum id (\<lambda>r. (map (touch (emailId e) t2) (fst r), snd r))
                       (thread_GET tid f db))
     \<and> (\<forall>u v. snd (recalculateStats u (delete_then_restore t1 t2 s (emailId e) db))
                 = snd (recalculateStats v db))
     \<and> (stats_consistent db \<longrightarrow>
          (\<forall>u v. snd (getStats u (delete_then_restore t1 t2 s (emailId e) db))
                   = snd (getStats v db)))"
proof -
  let ?i = "emailId e"
  let ?db1 = "fst (DELETE t1 (delete_by_id s) db)"
  let ?db2 = "delete_then_restore t1 t2 s ?i db"
  have mem: "?i \<in> emailId ` set (emails db)" using assms(1) by blast
  have d: "\<exists>r. snd (DELETE t1 (delete_by_id s) db) = Inr r"
    by (rule DELETE_by_id_ok[OF assms(5) mem])
  have "map emailId (emails ?db1) = map emailId (emails db)"
    unfolding DELETE_by_id[OF assms(5)] by (rule emailId_update_where) simp
  then have "emailId ` set (emails ?db1) = emailId ` set (emails db)"
    by (metis set_map)
  then have mem1: "?i \<in> emailId ` set (emails ?db1)" using mem by simp
  have p: "\<exists>r. snd (PATCH t2 (restore_by_id ?i) ?db1) = Inr r"
    by (rule PATCH_restore_ok[OF assms(3) mem1])
  have em: "emails ?db2 = map (touch ?i t2) (emails db)"
    unfolding delete_then_restore_def by (rule delete_then_restore_emails[OF assms])
  have sc: "stats_consistent ?db2"
    using p stats_consistent_PATCH unfolding delete_then_restore_def by blast
  have rs: "\<And>u v. snd (recalculateStats u ?db2) = snd (recalculateStats v db)"
    by (rule recalculateStats_touch[OF em])
  have gs: "snd (getStats u ?db2) = snd (getStats v db)" if "stats_consistent db" for u v
    by (simp only: getStats_consistent[OF sc, of u 0] getStats_consistent[OF that, of v 0]
        rs[of 0 0])
  have fe: "\<And>params. fetchEmails params (emails ?db2)
                   = map (touch ?i t2) (fetchEmails params (emails db))"
    by (simp only: em fetchEmails_touch)
  have tg: "\<And>tid f. thread_GET tid f ?db2
                   = map_sum id (\<lambda>r. (map (touch ?i t2) (fst r), snd r)) (thread_GET tid f db)"
    by (rule thread_GET_touch[OF em])
  show ?thesis
    using d p em rs gs fe tg by blast
qed

theorem C9_delete_then_restore_witness:
  "mkEmail 2 ''t1'' True False False INCOMING 101 \<in> set (emails db_t1_mixed)
   \<and> \<not> isDeleted (mkEmail 2 ''t1'' True False False INCOMING 101)
   \<and> distinct (map emailId (emails db_t1_mixed))
   \<and> parseInt ''2'' = Some 2
   \<and> emails (delete_then_restore 200 201 ''2'' 2 db_t1_mixed)
      = [mkEmail 1 ''t1'' True True False INCOMING 100,
         (mkEmail 2 ''t1'' True False False INCOMING 101)\<lparr>updatedAt := 201\<rparr>,
         mkEmail 3 ''t1'' True True True INCOMING 102,
         mkEmail 4 ''t2'' True True False INCOMING 103]"
proof -
  let ?e = "mkEmail 2 ''t1'' True False False INCOMING 101"
  have i: "emailId ?e = 2" by (simp add: mkEmail_def)
  have h: "?e \<in> set (emails db_t1_mixed)" "\<not> isDeleted ?e" "emailId ?e \<noteq> 0"
    "distinct (map emailId (emails db_t1_mixed))"
    by (simp_all add: db_t1_mixed_def mkEmail_def)
  have q: "parseInt ''2'' = Some (emailId ?e)"
    unfolding i by code_simp
  have "emails (delete_then_restore 200 201 ''2'' (emailId ?e) db_t1_mixed)
        = map (touch (emailId ?e) 201) (emails db_t1_mixed)"
    using C9_delete_then_restore[OF h q, of 200 201] by blast
  then have "emails (delete_then_restore 200 201 ''2'' 2 db_t1_mixed)
        = map (touch 2 201) (emails db_t1_mixed)"
    unfolding i .
  then show ?thesis
    using h q unfolding i by (simp add: touch_def db_t1_mixed_def mkEmail_def)
qed

text \<open>C9 as stated fails for a record that is already deleted: the delete succeeds, the
  restore clears the flag, and the record leaves the trash.\<close>

theorem C9_already_deleted_counterexample:
  "isDeleted (emails db_one_deleted ! 0)
   \<and> \<not> isDeleted (emails (delete_then_restore 200 201 ''1'' 1 db_one_deleted) ! 0)
   \<and> map emailId (fst (GET (Some ''trash'') None None db_one_deleted)) = [1]
   \<and> map emailId (fst (GET (Some ''trash'') None None
                          (delete_then_restore 200 201 ''1'' 1 db_one_deleted))) = []"
  by code_simp

end
